theory Spec2Isabelle
  imports Main "HOL-Library.Sublist" "HOL-Library.Multiset"
begin

section \<open>Platform values used by the downloader\<close>

text \<open>
  The program is a single TypeScript file, \<^verbatim>\<open>src/index.ts\<close>. It calls things that are
  not part of it: the HTTP client \<^verbatim>\<open>got\<close>, the file system, the WHATWG \<^verbatim>\<open>URL\<close> class,
  the MD5 digest of Node's \<^verbatim>\<open>crypto\<close> and \<^verbatim>\<open>Math.random\<close>. They are parameters of the
  model: a digest, a URL parser and a shuffle in a record, and the answers of the network
  and of \<^verbatim>\<open>writeFile\<close> as an oracle.
\<close>

type_synonym buffer = string

record URL =
  href :: string
  hostname :: string
  searchParams_url :: "string option"  \<comment> \<open>\<^verbatim>\<open>u.searchParams.get("url")\<close>, \<open>None\<close> for \<^verbatim>\<open>null\<close>\<close>

record platform =
  md5_hex :: "buffer \<Rightarrow> string"      \<comment> \<open>\<^verbatim>\<open>createHash("md5").update(b).digest("hex")\<close>\<close>
  newURL :: "string \<Rightarrow> URL option"   \<comment> \<open>\<^verbatim>\<open>new URL(s)\<close>, \<open>None\<close> when it throws\<close>
  shuffle :: "(string \<times> string) list \<Rightarrow> (string \<times> string) list"
    \<comment> \<open>\<^verbatim>\<open>.sort(() => Math.random() - 0.5)\<close>: the order the run happens to take\<close>

record response =
  content_type :: "string option"    \<comment> \<open>\<^verbatim>\<open>response.headers["content-type"]\<close>\<close>
  body :: buffer

datatype got_result = Rejected string | Resolved response

text \<open>
  One run of the \<^verbatim>\<open>try\<close> block of \<^verbatim>\<open>doDownload\<close> asks the environment twice: \<^verbatim>\<open>got\<close>
  resolves or rejects with an error whose message is a string, and \<^verbatim>\<open>writeFile\<close>
  completes (\<open>None\<close>) or rejects with a message.
\<close>

record attempt =
  got_res :: got_result
  write_res :: "string option"

datatype event = Got URL bool | WriteFile string buffer | Sleep nat

section \<open>String helpers\<close>

text \<open>
  Strings are lists of bytes. \<^verbatim>\<open>toLowerCase\<close> is modelled on the letters A to Z: a header
  value holds Latin-1 characters only, the other letters among them have lower-case forms
  outside ASCII, and the words searched for are ASCII, so the searches of the source give
  the same answers.
\<close>

definition toLowerChar :: "char \<Rightarrow> char" where
  "toLowerChar c =
     (let n = (of_char c :: nat) in if 65 \<le> n \<and> n \<le> 90 then char_of (n + 32) else c)"

definition toLowerCase :: "string \<Rightarrow> string" where
  "toLowerCase s = map toLowerChar s"

fun str_includes :: "string \<Rightarrow> string \<Rightarrow> bool" where
  "str_includes [] t = (t = [])"
| "str_includes (c # s) t = (prefix t (c # s) \<or> str_includes s t)"

fun indexOf :: "string \<Rightarrow> string \<Rightarrow> int" where
  "indexOf [] del = (if del = [] then 0 else - 1)"
| "indexOf (c # s) del =
     (if prefix del (c # s) then 0
      else (let i = indexOf s del in if i < 0 then - 1 else i + 1))"

definition substring :: "string \<Rightarrow> int \<Rightarrow> int \<Rightarrow> string" where
  "substring s a b =
     (let n = int (length s);
          a' = max 0 (min a n);
          b' = max 0 (min b n);
          lo = min a' b';
          hi = max a' b'
      in take (nat (hi - lo)) (drop (nat lo) s))"

definition removeBefore :: "string \<Rightarrow> string \<Rightarrow> string" where
  "removeBefore s del = substring s (indexOf s del + 1) (int (length s))"

section \<open>The fetch engine\<close>

definition outDir :: string where
  "outDir = ''./images''"

definition MaxRetries :: nat where
  "MaxRetries = 5"

definition mediaTypes :: "string list" where
  "mediaTypes = [''audio'', ''image'', ''video'']"

definition md5Hash :: "platform \<Rightarrow> buffer \<Rightarrow> string" where
  "md5Hash P str = md5_hex P str"

text \<open>The condition of the \<^verbatim>\<open>if\<close> at the head of the \<^verbatim>\<open>try\<close> block.\<close>

definition invalidContentType :: "string option \<Rightarrow> bool" where
  "invalidContentType h =
     (case h of
        None \<Rightarrow> False
      | Some ct \<Rightarrow>
          \<not> list_ex (\<lambda>type. str_includes (toLowerCase ct) type) mediaTypes
          \<or> str_includes (toLowerCase ct) ''charset'')"

text \<open>What a template literal prints for the header: its text, or \<^verbatim>\<open>undefined\<close>.\<close>

definition templateText :: "string option \<Rightarrow> string" where
  "templateText h = (case h of Some ct \<Rightarrow> ct | None \<Rightarrow> ''undefined'')"

datatype completion = Return string | Throw string

text \<open>
  The \<^verbatim>\<open>try\<close> block: how it completes, and what it did. The \<^verbatim>\<open>throw\<close> of the
  content-type check is inside the \<^verbatim>\<open>try\<close>, so it reaches the \<^verbatim>\<open>catch\<close> of the same call.
\<close>

definition tryBlock :: "platform \<Rightarrow> attempt \<Rightarrow> URL \<Rightarrow> bool \<Rightarrow> completion \<times> event list" where
  "tryBlock P a url throwHttpErrors =
     (case got_res a of
        Rejected msg \<Rightarrow> (Throw msg, [Got url throwHttpErrors])
      | Resolved resp \<Rightarrow>
          if invalidContentType (content_type resp) then
            (if \<not> throwHttpErrors
             then (Throw (''Invalid content-type '' @ templateText (content_type resp)),
                   [Got url throwHttpErrors])
             else (Return (''Invalid content-type '' @ templateText (content_type resp)),
                   [Got url throwHttpErrors]))
          else
            (let fileName = md5Hash P (body resp);
                 fileExt = (case content_type resp of
                              Some ct \<Rightarrow> removeBefore ct ''/''
                            | None \<Rightarrow> '''');
                 filePath = outDir @ ''/'' @ fileName @ ''.'' @ fileExt
             in case write_res a of
                  Some msg \<Rightarrow>
                    (Throw msg, [Got url throwHttpErrors, WriteFile filePath (body resp)])
                | None \<Rightarrow>
                    (Return filePath, [Got url throwHttpErrors, WriteFile filePath (body resp)])))"

definition terminalMessages :: "string list" where
  "terminalMessages =
     [''Response code 400 (Bad Request)'',
      ''Response code 404 (Not Found)'',
      ''Response code 403 (Forbidden)'',
      ''Response code 503 (Service Unavailable)'',
      ''Response code 410 (Gone)'',
      ''Response code 422 (Unknown)'']"

text \<open>
  \<^verbatim>\<open>doDownload\<close>. The oracle \<open>net\<close> gives the environment's answers to the attempt made
  with \<open>retries\<close> retries behind it. The result is the outcome string and the trace of
  requests, writes and sleeps, in order.
\<close>

function doDownload ::
  "platform \<Rightarrow> (nat \<Rightarrow> attempt) \<Rightarrow> URL \<Rightarrow> bool \<Rightarrow> nat \<Rightarrow> nat \<Rightarrow> string \<times> event list" where
  "doDownload P net url throwHttpErrors retries retryDelay =
     (let r = tryBlock P (net retries) url throwHttpErrors in
      case fst r of
        Return s \<Rightarrow> (s, snd r)
      | Throw message \<Rightarrow>
          if message \<in> set terminalMessages then (message, snd r)
          else if str_includes message ''getaddrinfo ENOTFOUND'' then (message, snd r)
          else if retries < MaxRetries then
            (let rest = doDownload P net url throwHttpErrors (retries + 1) (retryDelay + 1000)
             in (fst rest, snd r @ Sleep retryDelay # snd rest))
          else (message, snd r))"
  by pat_completeness auto
termination
  by (relation "measure (\<lambda>(P, net, url, t, retries, retryDelay). MaxRetries - retries)") auto

declare doDownload.simps [simp del]

text \<open>Readings of a trace: the delays slept, the number of requests, and the trace
  without its file writes.\<close>

definition sleeps :: "event list \<Rightarrow> nat list" where
  "sleeps evs = concat (map (\<lambda>e. case e of Sleep d \<Rightarrow> [d] | _ \<Rightarrow> []) evs)"

definition attempts :: "event list \<Rightarrow> nat" where
  "attempts evs = length (filter (\<lambda>e. case e of Got u t \<Rightarrow> True | _ \<Rightarrow> False) evs)"

definition schedule :: "event list \<Rightarrow> event list" where
  "schedule evs = filter (\<lambda>e. case e of WriteFile p b \<Rightarrow> False | _ \<Rightarrow> True) evs"

text \<open>
  A message is transient when the \<^verbatim>\<open>catch\<close> block passes both of its early returns
  with it; an attempt fails transiently when its \<^verbatim>\<open>try\<close> block throws such a message.
\<close>

definition transient :: "string \<Rightarrow> bool" where
  "transient message =
     (message \<notin> set terminalMessages \<and> \<not> str_includes message ''getaddrinfo ENOTFOUND'')"

definition failsTransiently :: "platform \<Rightarrow> attempt \<Rightarrow> URL \<Rightarrow> bool \<Rightarrow> bool" where
  "failsTransiently P a url throwHttpErrors =
     (case fst (tryBlock P a url throwHttpErrors) of
        Throw message \<Rightarrow> transient message
      | Return s \<Rightarrow> False)"

section \<open>The admission limiter\<close>

text \<open>
  The two counters of a \<^verbatim>\<open>Downloader\<close>. A queued closure is named by the caller \<open>'w\<close>
  whose \<^verbatim>\<open>await\<close> it resolves.
\<close>

record 'w Downloader =
  avalibleDeliverySlots :: int
  downloadQueue :: "'w list"

definition new_Downloader :: "int \<Rightarrow> 'w Downloader" where
  "new_Downloader downloadThreads =
     \<lparr>avalibleDeliverySlots = downloadThreads, downloadQueue = []\<rparr>"

text \<open>\<^verbatim>\<open>getDownloadSempahore\<close>: the flag says whether the caller proceeds at once.\<close>

definition getDownloadSempahore :: "'w \<Rightarrow> 'w Downloader \<Rightarrow> 'w Downloader \<times> bool" where
  "getDownloadSempahore w D =
     (if avalibleDeliverySlots D > 0
      then (D\<lparr>avalibleDeliverySlots := avalibleDeliverySlots D - 1\<rparr>, True)
      else (D\<lparr>downloadQueue := downloadQueue D @ [w]\<rparr>, False))"

text \<open>\<^verbatim>\<open>releaseDownloadSemaphore\<close>: the caller it resumes, if any. The closure it takes
  from the head of the queue decrements the counter again before it resolves.\<close>

definition releaseDownloadSemaphore :: "'w Downloader \<Rightarrow> 'w Downloader \<times> 'w option" where
  "releaseDownloadSemaphore D =
     (let D1 = D\<lparr>avalibleDeliverySlots := avalibleDeliverySlots D + 1\<rparr>
      in case downloadQueue D1 of
           [] \<Rightarrow> (D1, None)
         | w # q \<Rightarrow>
             (D1\<lparr>downloadQueue := q,
                 avalibleDeliverySlots := avalibleDeliverySlots D1 - 1\<rparr>, Some w))"

text \<open>
  One \<^verbatim>\<open>Downloader\<close> and the callers of its \<^verbatim>\<open>download\<close> that are between the two
  semaphore calls. A caller enters \<^verbatim>\<open>download\<close> (\<open>Enter\<close>) when it is neither waiting nor
  downloading, and leaves it (\<open>Leave\<close>) when its \<^verbatim>\<open>doDownload\<close> has returned.
\<close>

record 'w limiter =
  sem :: "'w Downloader"
  inFlight :: "'w list"

datatype 'w call = Enter 'w | Leave 'w

definition boot :: "int \<Rightarrow> 'w limiter" where
  "boot downloadThreads = \<lparr>sem = new_Downloader downloadThreads, inFlight = []\<rparr>"

fun limiter_step :: "'w limiter \<Rightarrow> 'w call \<Rightarrow> 'w limiter option" where
  "limiter_step s (Enter w) =
     (if w \<in> set (inFlight s) \<or> w \<in> set (downloadQueue (sem s)) then None
      else (let r = getDownloadSempahore w (sem s)
            in Some \<lparr>sem = fst r,
                     inFlight = (if snd r then inFlight s @ [w] else inFlight s)\<rparr>))"
| "limiter_step s (Leave w) =
     (if w \<notin> set (inFlight s) then None
      else (let r = releaseDownloadSemaphore (sem s)
            in Some \<lparr>sem = fst r,
                     inFlight = remove1 w (inFlight s) @
                                (case snd r of None \<Rightarrow> [] | Some w' \<Rightarrow> [w'])\<rparr>))"

fun limiter_run :: "'w limiter \<Rightarrow> 'w call list \<Rightarrow> 'w limiter option" where
  "limiter_run s [] = Some s"
| "limiter_run s (c # cs) =
     (case limiter_step s c of None \<Rightarrow> None | Some s' \<Rightarrow> limiter_run s' cs)"

section \<open>URL resolution\<close>

text \<open>The body of the loop that fills \<^verbatim>\<open>imgMap\<close>; \<open>Inl\<close> is the \<^verbatim>\<open>TypeError\<close> of
  \<^verbatim>\<open>new URL(url)\<close>, which nothing catches.\<close>

definition resolveUrl :: "platform \<Rightarrow> string \<Rightarrow> string + string" where
  "resolveUrl P url =
     (case newURL P url of
        None \<Rightarrow> Inl ''Invalid URL''
      | Some u \<Rightarrow>
          (let qUrl = searchParams_url u;
               fUrl = (case qUrl of Some q \<Rightarrow> q | None \<Rightarrow> url);
               fUrl = (if prefix ''//'' fUrl then drop 2 fUrl else fUrl)
           in Inr fUrl))"

fun buildImgMap :: "platform \<Rightarrow> string list \<Rightarrow> string + (string \<times> string) list" where
  "buildImgMap P [] = Inr []"
| "buildImgMap P (url # urls) =
     (case resolveUrl P url of
        Inl e \<Rightarrow> Inl e
      | Inr fUrl \<Rightarrow>
          (case buildImgMap P urls of
             Inl e \<Rightarrow> Inl e
           | Inr m \<Rightarrow> Inr ((url, fUrl) # m)))"

text \<open>The \<^verbatim>\<open>try\<close>/\<^verbatim>\<open>catch\<close> of the job that picks the URL to fetch first.\<close>

definition downUrlOf :: "platform \<Rightarrow> URL \<Rightarrow> string \<Rightarrow> URL" where
  "downUrlOf P kUrl url = (case newURL P url of Some u \<Rightarrow> u | None \<Rightarrow> kUrl)"

section \<open>The orchestrator\<close>

record Entry =
  entry_id :: nat                        \<comment> \<open>the field \<^verbatim>\<open>id\<close>\<close>
  cover :: "string option"               \<comment> \<open>\<open>None\<close> for \<^verbatim>\<open>null\<close>\<close>
  chapter_urls :: "string option list"

definition set_add :: "'a \<Rightarrow> 'a list \<Rightarrow> 'a list" where
  "set_add x xs = (if x \<in> set xs then xs else xs @ [x])"

text \<open>The set of URLs as a list in insertion order, \<^verbatim>\<open>null\<close> deleted from it.\<close>

definition urlArray :: "Entry list \<Rightarrow> string list" where
  "urlArray imgs =
     (let urlSet = fold (\<lambda>entry s. fold set_add (chapter_urls entry) (set_add (cover entry) s))
                     imgs []
      in concat (map (\<lambda>u. case u of None \<Rightarrow> [] | Some url \<Rightarrow> [url]) urlSet))"

text \<open>One call of \<^verbatim>\<open>download\<close> as the log keeps it: the work item it belongs to, the key
  of the \<^verbatim>\<open>Downloader\<close> it went through, the URL, the mode and the trace of
  \<^verbatim>\<open>doDownload\<close>.\<close>

record fetch =
  item :: string
  destination :: string
  target :: URL
  strict :: bool
  trace :: "event list"

record state =
  urlPathMap :: "string \<rightharpoonup> string"
  downloaders :: "string \<rightharpoonup> string Downloader"
  doneCount :: nat                       \<comment> \<open>the variable \<^verbatim>\<open>done\<close>\<close>
  fetches :: "fetch list"

text \<open>How a promise stands: the job's, and the one of \<^verbatim>\<open>Promise.all\<close>.\<close>

datatype settled = Fulfilled | RejectedWith string | Pending

text \<open>
  \<^verbatim>\<open>download\<close>, read for one caller on its own: when the semaphore makes the caller wait
  there is nobody to release it, and the result is \<open>None\<close>. The interleaving of callers
  is the subject of \<open>limiter_step\<close>.
\<close>

definition download ::
  "platform \<Rightarrow> (nat \<Rightarrow> attempt) \<Rightarrow> string \<Rightarrow> string Downloader \<Rightarrow> URL \<Rightarrow> bool option
     \<Rightarrow> (string \<times> string Downloader \<times> event list) option" where
  "download P net w D url retryErrors =
     (let g = getDownloadSempahore w D in
      if \<not> snd g then None
      else (let throwHttpErrors = (case retryErrors of None \<Rightarrow> True | Some b \<Rightarrow> b);
                r = doDownload P net url throwHttpErrors 0 1000;
                D' = fst (releaseDownloadSemaphore (fst g))
            in Some (fst r, D', snd r)))"

text \<open>The names \<^verbatim>\<open>downloaders[name]\<close> finds on \<^verbatim>\<open>Object.prototype\<close> when the object has
  no property of its own under them.\<close>

definition objectPrototypeKeys :: "string list" where
  "objectPrototypeKeys =
     [''constructor'', ''__defineGetter__'', ''__defineSetter__'', ''hasOwnProperty'',
      ''__lookupGetter__'', ''__lookupSetter__'', ''isPrototypeOf'',
      ''propertyIsEnumerable'', ''toString'', ''valueOf'', ''__proto__'',
      ''toLocaleString'']"

text \<open>
  The job of one work item \<open>(k, url)\<close>, run from state \<open>st\<close>. The oracle \<open>world k t\<close>
  answers the requests the job makes for \<open>k\<close> in mode \<open>t\<close>; a job makes at most one
  \<^verbatim>\<open>download\<close> call in each mode. Jobs of different items read and write different keys
  of \<^verbatim>\<open>urlPathMap\<close>, so a job is read here without the others interleaved.
\<close>

definition job :: "platform \<Rightarrow> (string \<Rightarrow> bool \<Rightarrow> nat \<Rightarrow> attempt) \<Rightarrow> state \<Rightarrow> string \<times> string
                    \<Rightarrow> settled \<times> state" where
  "job P world st todo =
     (let k = fst todo; url = snd todo in
      if urlPathMap st k \<noteq> None then (Fulfilled, st\<lparr>doneCount := doneCount st + 1\<rparr>)
      else
        case newURL P k of
          None \<Rightarrow> (RejectedWith ''Invalid URL'', st)
        | Some kUrl \<Rightarrow>
            (let downUrl = downUrlOf P kUrl url;
                 h = hostname downUrl
             in if h \<in> set objectPrototypeKeys
                then (RejectedWith ''downloaders[downUrl.hostname].download is not a function'', st)
                else
                  (let D = (case downloaders st h of Some D \<Rightarrow> D | None \<Rightarrow> new_Downloader 128);
                       st1 = st\<lparr>downloaders := (downloaders st)(h \<mapsto> D)\<rparr>
                   in if k = url then
                        (case download P (world k False) k D downUrl (Some False) of
                           None \<Rightarrow> (Pending, st1)
                         | Some (result, D', evs) \<Rightarrow>
                             (Fulfilled,
                              st1\<lparr>urlPathMap := (urlPathMap st1)(k \<mapsto> result),
                                  downloaders := (downloaders st1)(h \<mapsto> D'),
                                  doneCount := doneCount st1 + 1,
                                  fetches := fetches st1 @
                                    [\<lparr>item = k, destination = h, target = downUrl,
                                      strict = False, trace = evs\<rparr>]\<rparr>))
                      else
                        (case download P (world k True) k D downUrl None of
                           None \<Rightarrow> (Pending, st1)
                         | Some (result, D', evs) \<Rightarrow>
                             (let st2 = st1\<lparr>urlPathMap := (urlPathMap st1)(k \<mapsto> result),
                                            downloaders := (downloaders st1)(h \<mapsto> D'),
                                            fetches := fetches st1 @
                                              [\<lparr>item = k, destination = h, target = downUrl,
                                                strict = True, trace = evs\<rparr>]\<rparr>
                              in if \<not> str_includes result outDir \<and> k \<noteq> url then
                                   (case downloaders st2 ''retry'' of
                                      None \<Rightarrow>
                                        (RejectedWith ''Cannot read properties of undefined'', st2)
                                    | Some R \<Rightarrow>
                                        (case download P (world k False) k R kUrl (Some False) of
                                           None \<Rightarrow> (Pending, st2)
                                         | Some (result', R', evs') \<Rightarrow>
                                             (Fulfilled,
                                              st2\<lparr>urlPathMap := (urlPathMap st2)(k \<mapsto> result'),
                                                  downloaders := (downloaders st2)(''retry'' \<mapsto> R'),
                                                  doneCount := doneCount st2 + 1,
                                                  fetches := fetches st2 @
                                                    [\<lparr>item = k, destination = ''retry'',
                                                      target = kUrl, strict = False,
                                                      trace = evs'\<rparr>]\<rparr>)))
                                 else (Fulfilled, st2\<lparr>doneCount := doneCount st2 + 1\<rparr>))))))"

text \<open>\<^verbatim>\<open>Promise.all\<close> over the jobs, taken in the order of \<^verbatim>\<open>todo\<close>: it is fulfilled when
  every job is, and the first job that is not decides it otherwise.\<close>

fun runJobs :: "platform \<Rightarrow> (string \<Rightarrow> bool \<Rightarrow> nat \<Rightarrow> attempt) \<Rightarrow> state \<Rightarrow> (string \<times> string) list
                 \<Rightarrow> settled \<times> state" where
  "runJobs P world st [] = (Fulfilled, st)"
| "runJobs P world st (j # js) =
     (case job P world st j of
        (Fulfilled, st') \<Rightarrow> runJobs P world st' js
      | (s, st') \<Rightarrow> (s, st'))"

text \<open>
  The main function, from the parsed catalog \<open>imgs\<close> and the parsed checkpoint
  \<open>urlPathMap0\<close> on. When the loop that fills \<^verbatim>\<open>imgMap\<close> throws, nothing has been fetched
  and the checkpoint is as it was read. \<^verbatim>\<open>saveJson\<close> only writes files and the
  \<^verbatim>\<open>coverPath\<close> and \<^verbatim>\<open>chapter_paths\<close> fields, which nothing reads; it is left out.
\<close>

definition start :: "(string \<rightharpoonup> string) \<Rightarrow> state" where
  "start urlPathMap0 =
     \<lparr>urlPathMap = urlPathMap0,
      downloaders = [''retry'' \<mapsto> new_Downloader 128],
      doneCount = 0, fetches = []\<rparr>"

definition main :: "platform \<Rightarrow> (string \<Rightarrow> bool \<Rightarrow> nat \<Rightarrow> attempt) \<Rightarrow> Entry list
                     \<Rightarrow> (string \<rightharpoonup> string) \<Rightarrow> settled \<times> state" where
  "main P world imgs urlPathMap0 =
     (case buildImgMap P (urlArray imgs) of
        Inl e \<Rightarrow> (RejectedWith e, start urlPathMap0)
      | Inr imgMap \<Rightarrow> runJobs P world (start urlPathMap0) (shuffle P imgMap))"

section \<open>Predicates on states\<close>

text \<open>A limiter of capacity \<open>n\<close> is consistent: the free slots and the callers in flight
  add up to \<open>n\<close>, no counter is negative, and nobody waits while a slot is free.\<close>

definition limiter_inv :: "int \<Rightarrow> 'w limiter \<Rightarrow> bool" where
  "limiter_inv n s =
     (avalibleDeliverySlots (sem s) = n - int (length (inFlight s))
      \<and> 0 \<le> avalibleDeliverySlots (sem s)
      \<and> (downloadQueue (sem s) = [] \<or> avalibleDeliverySlots (sem s) = 0))"

text \<open>Between two jobs taken one after the other every \<^verbatim>\<open>Downloader\<close> is as it was
  created, and the one under \<^verbatim>\<open>retry\<close> exists.\<close>

definition rested :: "state \<Rightarrow> bool" where
  "rested st =
     (downloaders st ''retry'' = Some (new_Downloader 128)
      \<and> (\<forall>h D. downloaders st h = Some D \<longrightarrow> D = new_Downloader 128))"



section \<open>Sample platform\<close>

text \<open>
  Concrete values for the examples. The digest stands in for MD5 and agrees with it on the
  empty buffer, the only body whose digest the examples name. The parser covers the plain
  \<^verbatim>\<open>http://\<close> and \<^verbatim>\<open>https://\<close> URLs of the examples (lower-case host, no port, no
  escapes, a path present, so that \<^verbatim>\<open>href\<close> is the input); a string with neither scheme
  prefix is rejected, as \<^verbatim>\<open>new URL\<close> rejects a string without a scheme. The shuffle
  reverses the list.
\<close>

definition sample_digest :: "buffer \<Rightarrow> string" where
  "sample_digest b =
     (if b = [] then ''d41d8cd98f00b204e9800998ecf8427e''
      else ''00000000000000000000000000000000'')"

fun sample_query_get :: "string \<Rightarrow> string list \<Rightarrow> string option" where
  "sample_query_get name [] = None"
| "sample_query_get name (kv # kvs) =
     (if prefix (name @ ''='') kv then Some (drop (length name + 1) kv)
      else sample_query_get name kvs)"

fun split_on :: "char \<Rightarrow> string \<Rightarrow> string list" where
  "split_on d [] = [[]]"
| "split_on d (c # s) =
     (case split_on d s of
        [] \<Rightarrow> [[c]]
      | w # ws \<Rightarrow> if c = d then [] # w # ws else (c # w) # ws)"

definition sample_newURL :: "string \<Rightarrow> URL option" where
  "sample_newURL s =
     (let rest = (if prefix ''https://'' s then Some (drop 8 s)
                  else if prefix ''http://'' s then Some (drop 7 s)
                  else None)
      in case rest of
           None \<Rightarrow> None
         | Some r \<Rightarrow>
             (let host = takeWhile (\<lambda>c. c \<noteq> CHR ''/'' \<and> c \<noteq> CHR ''?'' \<and> c \<noteq> CHR ''#'') r;
                  after = dropWhile (\<lambda>c. c \<noteq> CHR ''?'' \<and> c \<noteq> CHR ''#'') r;
                  query = (case after of
                             c # q \<Rightarrow> if c = CHR ''?'' then takeWhile (\<lambda>c. c \<noteq> CHR ''#'') q else []
                           | [] \<Rightarrow> [])
              in if host = [] then None
                 else Some \<lparr>href = s, hostname = host,
                            searchParams_url = sample_query_get ''url'' (split_on CHR ''&'' query)\<rparr>))"

definition sample_platform :: platform where
  "sample_platform = \<lparr>md5_hex = sample_digest, newURL = sample_newURL, shuffle = rev\<rparr>"

definition cdn_url :: URL where
  "cdn_url = \<lparr>href = ''https://cdn.example.com/a.jpg'', hostname = ''cdn.example.com'',
              searchParams_url = None\<rparr>"

definition always :: "got_result \<Rightarrow> nat \<Rightarrow> attempt" where
  "always g = (\<lambda>n. \<lparr>got_res = g, write_res = None\<rparr>)"

definition png_response :: response where
  "png_response = \<lparr>content_type = Some ''image/png'', body = []\<rparr>"

definition html_response :: response where
  "html_response = \<lparr>content_type = Some ''text/html; charset=utf-8'', body = ''<html>''\<rparr>"



text \<open>A network that resets the connection three times and then serves the image.\<close>

definition flaky :: "nat \<Rightarrow> attempt" where
  "flaky n =
     (if n < 3 then \<lparr>got_res = Rejected ''read ECONNRESET'', write_res = None\<rparr>
      else \<lparr>got_res = Resolved png_response, write_res = None\<rparr>)"

definition wrapped :: string where
  "wrapped = ''https://proxy.example.com/img?url=https://cdn.example.com/a.jpg''"

definition relative :: string where
  "relative = ''https://proxy.example.com/img?url=//cdn.example.com/a.jpg''"

definition plain :: string where
  "plain = ''https://cdn.example.com/a.jpg''"

text \<open>A network that answers every request with status 404 when asked strictly and
  serves the image otherwise.\<close>

definition strict404 :: "string \<Rightarrow> bool \<Rightarrow> nat \<Rightarrow> attempt" where
  "strict404 k t =
     (if t then always (Rejected ''Response code 404 (Not Found)'')
      else always (Resolved png_response))"

definition catalog :: "Entry list" where
  "catalog =
     [\<lparr>entry_id = 1, cover = Some plain, chapter_urls = [Some wrapped, None, Some plain]\<rparr>]"

definition broken_catalog :: "Entry list" where
  "broken_catalog =
     [\<lparr>entry_id = 1, cover = Some plain, chapter_urls = [Some ''not a url'']\<rparr>]"

section \<open>Properties of the fetch engine\<close>




subsection \<open>The retry loop\<close>

lemma schedule_tryBlock: "schedule (snd (tryBlock P a url t)) = [Got url t]"
  by (simp add: tryBlock_def schedule_def Let_def split: got_result.splits option.splits)

lemma schedule_append: "schedule (xs @ ys) = schedule xs @ schedule ys"
  by (simp add: schedule_def)

lemma schedule_Sleep: "schedule (Sleep d # ys) = Sleep d # schedule ys"
  by (simp add: schedule_def)

lemma attempts_tryBlock: "attempts (snd (tryBlock P a url t)) = 1"
  by (simp add: tryBlock_def attempts_def Let_def split: got_result.splits option.splits)

lemma attempts_append: "attempts (xs @ ys) = attempts xs + attempts ys"
  by (simp add: attempts_def)

lemma attempts_Sleep: "attempts (Sleep d # ys) = attempts ys"
  by (simp add: attempts_def)

lemma attempts_schedule: "attempts (schedule evs) = attempts evs"
  by (induction evs) (auto simp: attempts_def schedule_def split: event.splits)

lemma sleeps_schedule: "sleeps (schedule evs) = sleeps evs"
  by (induction evs) (auto simp: sleeps_def schedule_def split: event.splits)

lemma doDownload_stop:
  assumes "\<not> failsTransiently P (net r) url t"
  shows "schedule (snd (doDownload P net url t r d)) = [Got url t]"
  using assms
  by (subst doDownload.simps)
     (auto simp: failsTransiently_def transient_def Let_def schedule_tryBlock
           split: completion.splits)

lemma doDownload_exhausted:
  assumes "failsTransiently P (net r) url t" "\<not> r < MaxRetries"
  shows "schedule (snd (doDownload P net url t r d)) = [Got url t]"
    and "fst (tryBlock P (net r) url t) = Throw (fst (doDownload P net url t r d))"
  using assms
  by (subst doDownload.simps;
      auto simp: failsTransiently_def transient_def Let_def schedule_tryBlock
           split: completion.splits)+

lemma doDownload_retry:
  assumes "failsTransiently P (net r) url t" "r < MaxRetries"
  shows "doDownload P net url t r d =
           (fst (doDownload P net url t (Suc r) (d + 1000)),
            snd (tryBlock P (net r) url t) @
              Sleep d # snd (doDownload P net url t (Suc r) (d + 1000)))"
  using assms
  by (subst doDownload.simps)
     (auto simp: failsTransiently_def transient_def Let_def
           split: completion.splits)

lemma backoff_shift:
  "concat (map (\<lambda>i. [Got url t, Sleep (d + 1000 * i)]) [0..<Suc n])
     = [Got url t, Sleep d] @
       concat (map (\<lambda>i. [Got url t, Sleep (d + 1000 + 1000 * i)]) [0..<n])"
  by (induction n) (simp_all add: algebra_simps)

text \<open>The trace of a call whose first \<open>n\<close> attempts fail transiently and whose next one
  does not: \<open>n\<close> requests, each followed by its delay, and the last request.\<close>

lemma doDownload_schedule_until:
  "r + n \<le> MaxRetries \<Longrightarrow> (\<forall>i<n. failsTransiently P (net (r + i)) url t) \<Longrightarrow>
   \<not> failsTransiently P (net (r + n)) url t \<Longrightarrow>
   schedule (snd (doDownload P net url t r d))
     = concat (map (\<lambda>i. [Got url t, Sleep (d + 1000 * i)]) [0..<n]) @ [Got url t]"
proof (induction n arbitrary: r d)
  case 0
  then show ?case by (simp add: doDownload_stop)
next
  case (Suc n)
  have f0: "failsTransiently P (net r) url t" using Suc.prems(2) by force
  have lt: "r < MaxRetries" using Suc.prems(1) by simp
  have ih: "schedule (snd (doDownload P net url t (Suc r) (d + 1000)))
     = concat (map (\<lambda>i. [Got url t, Sleep (d + 1000 + 1000 * i)]) [0..<n]) @ [Got url t]"
  proof (rule Suc.IH)
    show "Suc r + n \<le> MaxRetries" using Suc.prems(1) by simp
    show "\<forall>i<n. failsTransiently P (net (Suc r + i)) url t"
    proof (intro allI impI)
      fix i assume "i < n"
      then have "Suc i < Suc n" by simp
      then have "failsTransiently P (net (r + Suc i)) url t" using Suc.prems(2) by blast
      then show "failsTransiently P (net (Suc r + i)) url t" by simp
    qed
    show "\<not> failsTransiently P (net (Suc r + n)) url t" using Suc.prems(3) by simp
  qed
  show ?case
    unfolding backoff_shift
    by (simp add: doDownload_retry[where net=net and r=r, OF f0 lt]
          schedule_append schedule_Sleep schedule_tryBlock ih)
qed

text \<open>The trace and the outcome of a call all of whose attempts fail transiently.\<close>

lemma doDownload_outcome_exhausted:
  "r \<le> MaxRetries \<Longrightarrow>
   (\<forall>i. r \<le> i \<and> i \<le> MaxRetries \<longrightarrow> failsTransiently P (net i) url t) \<Longrightarrow>
   fst (tryBlock P (net MaxRetries) url t) = Throw (fst (doDownload P net url t r d))
   \<and> schedule (snd (doDownload P net url t r d))
     = concat (map (\<lambda>i. [Got url t, Sleep (d + 1000 * i)]) [0..<MaxRetries - r])
       @ [Got url t]"
proof (induction "MaxRetries - r" arbitrary: r d)
  case 0
  then have r: "r = MaxRetries" by simp
  have f: "failsTransiently P (net r) url t" using 0 by simp
  show ?case using doDownload_exhausted[where net=net and r=r, OF f] r by simp
next
  case (Suc k)
  have lt: "r < MaxRetries" using Suc.hyps(2) by simp
  have f0: "failsTransiently P (net r) url t" using Suc.prems by simp
  have ih: "fst (tryBlock P (net MaxRetries) url t)
              = Throw (fst (doDownload P net url t (Suc r) (d + 1000)))
   \<and> schedule (snd (doDownload P net url t (Suc r) (d + 1000)))
     = concat (map (\<lambda>i. [Got url t, Sleep (d + 1000 + 1000 * i)]) [0..<MaxRetries - Suc r])
       @ [Got url t]"
  proof (rule Suc.hyps(1))
    show "k = MaxRetries - Suc r" using Suc.hyps(2) by simp
    show "Suc r \<le> MaxRetries" using lt by simp
    show "\<forall>i. Suc r \<le> i \<and> i \<le> MaxRetries \<longrightarrow> failsTransiently P (net i) url t"
      using Suc.prems(2) by simp
  qed
  have m: "MaxRetries - r = Suc (MaxRetries - Suc r)" using lt by simp
  show ?case
    unfolding m backoff_shift
    by (simp add: doDownload_retry[where net=net and r=r, OF f0 lt]
          schedule_append schedule_Sleep schedule_tryBlock ih)
qed

lemma doDownload_attempts_bound:
  "attempts (snd (doDownload P net url t r d)) \<le> Suc (MaxRetries - r)"
proof (induction P net url t r d rule: doDownload.induct)
  case (1 P net url t r d)
  show ?case
  proof (cases "failsTransiently P (net r) url t \<and> r < MaxRetries")
    case True
    then obtain m where m: "fst (tryBlock P (net r) url t) = Throw m"
      "m \<notin> set terminalMessages" "\<not> str_includes m ''getaddrinfo ENOTFOUND''"
      by (auto simp: failsTransiently_def transient_def split: completion.splits)
    have ih: "attempts (snd (doDownload P net url t (r + 1) (d + 1000)))
                \<le> Suc (MaxRetries - (r + 1))"
      using "1.IH"[OF refl m] True by simp
    have ar: "Suc (MaxRetries - (r + 1)) \<le> MaxRetries - r" using True by arith
    have eq: "attempts (snd (doDownload P net url t r d))
                = Suc (attempts (snd (doDownload P net url t (r + 1) (d + 1000))))"
      using True m
      by (subst doDownload.simps)
         (simp add: Let_def attempts_append attempts_Sleep attempts_tryBlock)
    show ?thesis using eq ih ar by simp
  next
    case False
    then show ?thesis
      by (subst doDownload.simps)
         (auto simp: failsTransiently_def transient_def Let_def attempts_tryBlock
               split: completion.splits)
  qed
qed

text \<open>
  C2, as the claim states it, fails: a request that keeps failing with a connection reset
  is made six times, not five.
\<close>

theorem doDownload_five_attempts_counterexample:
  "attempts (snd (doDownload sample_platform (always (Rejected ''read ECONNRESET''))
                    cdn_url True 0 1000)) = 6
   \<and> \<not> attempts (snd (doDownload sample_platform (always (Rejected ''read ECONNRESET''))
                    cdn_url True 0 1000)) \<le> 5"
  by (simp add: doDownload.simps tryBlock_def always_def terminalMessages_def
        MaxRetries_def attempts_def)

text \<open>
  C2, amended. A call of \<^verbatim>\<open>doDownload\<close> with the default arguments makes at most six
  requests: the first one and at most \<open>MaxRetries = 5\<close> retries. When the first \<open>n\<close>
  attempts fail transiently and the next one does not, the trace is \<open>n\<close> requests, the
  \<open>i\<close>-th followed by a sleep of \<open>i\<close> seconds, and one more request. When all six
  attempts fail transiently, the trace is the six requests with sleeps of 1, 2, 3, 4 and
  5 seconds between them, and the outcome is the message thrown by the sixth attempt.
\<close>

theorem doDownload_backoff:
  "attempts (snd (doDownload P net url t 0 1000)) \<le> 6
   \<and> (\<forall>n \<le> MaxRetries.
        (\<forall>i<n. failsTransiently P (net i) url t) \<and> \<not> failsTransiently P (net n) url t
        \<longrightarrow> schedule (snd (doDownload P net url t 0 1000))
              = concat (map (\<lambda>i. [Got url t, Sleep (1000 * (i + 1))]) [0..<n]) @ [Got url t])
   \<and> ((\<forall>i \<le> MaxRetries. failsTransiently P (net i) url t)
        \<longrightarrow> schedule (snd (doDownload P net url t 0 1000))
              = [Got url t, Sleep 1000, Got url t, Sleep 2000, Got url t, Sleep 3000,
                 Got url t, Sleep 4000, Got url t, Sleep 5000, Got url t]
          \<and> attempts (snd (doDownload P net url t 0 1000)) = 6
          \<and> sleeps (snd (doDownload P net url t 0 1000)) = [1000, 2000, 3000, 4000, 5000]
          \<and> fst (tryBlock P (net 5) url t) = Throw (fst (doDownload P net url t 0 1000)))"
proof (intro conjI allI impI)
  show "attempts (snd (doDownload P net url t 0 1000)) \<le> 6"
    using doDownload_attempts_bound[of P net url t 0 1000] by (simp add: MaxRetries_def)
next
  fix n
  assume n: "n \<le> MaxRetries"
    and f: "(\<forall>i<n. failsTransiently P (net i) url t) \<and> \<not> failsTransiently P (net n) url t"
  have "schedule (snd (doDownload P net url t 0 1000))
          = concat (map (\<lambda>i. [Got url t, Sleep (1000 + 1000 * i)]) [0..<n]) @ [Got url t]"
    using doDownload_schedule_until[of 0 n P net url t 1000] n f by simp
  then show "schedule (snd (doDownload P net url t 0 1000))
          = concat (map (\<lambda>i. [Got url t, Sleep (1000 * (i + 1))]) [0..<n]) @ [Got url t]"
    by simp
next
  assume all: "\<forall>i \<le> MaxRetries. failsTransiently P (net i) url t"
  have ex: "fst (tryBlock P (net MaxRetries) url t) = Throw (fst (doDownload P net url t 0 1000))
     \<and> schedule (snd (doDownload P net url t 0 1000))
       = concat (map (\<lambda>i. [Got url t, Sleep (1000 + 1000 * i)]) [0..<MaxRetries - 0])
         @ [Got url t]"
    using doDownload_outcome_exhausted[of 0 P net url t 1000] all by simp
  have up: "[0..<5] = [0, 1, 2, 3, 4]" by (simp add: upt_rec)
  show sch: "schedule (snd (doDownload P net url t 0 1000))
          = [Got url t, Sleep 1000, Got url t, Sleep 2000, Got url t, Sleep 3000,
             Got url t, Sleep 4000, Got url t, Sleep 5000, Got url t]"
    using ex by (simp add: MaxRetries_def up)
  show "attempts (snd (doDownload P net url t 0 1000)) = 6"
    using sch attempts_schedule[of "snd (doDownload P net url t 0 1000)"]
    by (simp add: attempts_def)
  show "sleeps (snd (doDownload P net url t 0 1000)) = [1000, 2000, 3000, 4000, 5000]"
    using sch sleeps_schedule[of "snd (doDownload P net url t 0 1000)"]
    by (simp add: sleeps_def)
  show "fst (tryBlock P (net 5) url t) = Throw (fst (doDownload P net url t 0 1000))"
    using ex by (simp add: MaxRetries_def)
qed

theorem doDownload_backoff_witness:
  "list_all (\<lambda>i. failsTransiently sample_platform (always (Rejected ''read ECONNRESET'') i)
                    cdn_url True) [0, 1, 2, 3, 4, 5]
   \<and> doDownload sample_platform (always (Rejected ''read ECONNRESET'')) cdn_url True 0 1000
       = (''read ECONNRESET'',
          [Got cdn_url True, Sleep 1000, Got cdn_url True, Sleep 2000, Got cdn_url True,
           Sleep 3000, Got cdn_url True, Sleep 4000, Got cdn_url True, Sleep 5000,
           Got cdn_url True])
   \<and> sleeps (snd (doDownload sample_platform (always (Rejected ''read ECONNRESET''))
                    cdn_url True 0 1000)) = [1000, 2000, 3000, 4000, 5000]
   \<and> list_all (\<lambda>i. failsTransiently sample_platform (flaky i) cdn_url True) [0, 1, 2]
   \<and> \<not> failsTransiently sample_platform (flaky 3) cdn_url True
   \<and> schedule (snd (doDownload sample_platform flaky cdn_url True 0 1000))
       = [Got cdn_url True, Sleep 1000, Got cdn_url True, Sleep 2000, Got cdn_url True,
          Sleep 3000, Got cdn_url True]
   \<and> fst (doDownload sample_platform flaky cdn_url True 0 1000)
       = ''./images/d41d8cd98f00b204e9800998ecf8427e.png''"
proof -
  have tb: "tryBlock sample_platform (always (Rejected ''read ECONNRESET'') i) cdn_url True
              = (Throw ''read ECONNRESET'', [Got cdn_url True])" for i
    by (simp add: tryBlock_def always_def)
  have tr: "transient ''read ECONNRESET''"
    by (simp add: transient_def terminalMessages_def)
  have a: "failsTransiently sample_platform (always (Rejected ''read ECONNRESET'') i)
             cdn_url True" for i
    by (simp add: failsTransiently_def tb tr)
  have b: "\<forall>i<3. failsTransiently sample_platform (flaky i) cdn_url True"
    by (simp add: failsTransiently_def tryBlock_def flaky_def tr)
  have c: "\<not> failsTransiently sample_platform (flaky 3) cdn_url True"
    by (simp add: failsTransiently_def tryBlock_def flaky_def png_response_def
          invalidContentType_def mediaTypes_def toLowerCase_def toLowerChar_def Let_def)
  have up: "[0..<3] = [0, 1, 2]" by (simp add: upt_rec)
  have three: "(3::nat) \<le> MaxRetries" by (simp add: MaxRetries_def)
  note w1 = doDownload_backoff [of sample_platform "always (Rejected ''read ECONNRESET'')"
      cdn_url True]
  note w2 = doDownload_backoff [of sample_platform flaky cdn_url True]
  have s2: "schedule (snd (doDownload sample_platform flaky cdn_url True 0 1000))
       = [Got cdn_url True, Sleep 1000, Got cdn_url True, Sleep 2000, Got cdn_url True,
          Sleep 3000, Got cdn_url True]"
    using w2 b c three by (simp add: up)
  have out2: "fst (doDownload sample_platform flaky cdn_url True 0 1000)
       = ''./images/d41d8cd98f00b204e9800998ecf8427e.png''"
    by (simp add: doDownload.simps tryBlock_def flaky_def terminalMessages_def MaxRetries_def
          png_response_def invalidContentType_def mediaTypes_def toLowerCase_def
          toLowerChar_def Let_def outDir_def md5Hash_def sample_platform_def
          sample_digest_def removeBefore_def substring_def)
  have out1: "doDownload sample_platform (always (Rejected ''read ECONNRESET'')) cdn_url
                True 0 1000
       = (''read ECONNRESET'',
          [Got cdn_url True, Sleep 1000, Got cdn_url True, Sleep 2000, Got cdn_url True,
           Sleep 3000, Got cdn_url True, Sleep 4000, Got cdn_url True, Sleep 5000,
           Got cdn_url True])"
    by (simp add: doDownload.simps tb terminalMessages_def MaxRetries_def)
  show ?thesis
    using w1 a b c s2 out1 out2 by simp
qed

subsection \<open>Content type and stored path\<close>




lemma doDownload_return:
  assumes "tryBlock P (net r) url t = (Return s, evs)"
  shows "doDownload P net url t r d = (s, evs)"
  by (subst doDownload.simps) (simp add: assms)

lemma doDownload_throw:
  assumes "tryBlock P (net r) url t = (Throw m, evs)"
  shows "m \<in> set terminalMessages \<or> str_includes m ''getaddrinfo ENOTFOUND''
           \<Longrightarrow> doDownload P net url t r d = (m, evs)"
    and "m \<notin> set terminalMessages \<Longrightarrow> \<not> str_includes m ''getaddrinfo ENOTFOUND''
           \<Longrightarrow> r < MaxRetries
           \<Longrightarrow> doDownload P net url t r d
               = (fst (doDownload P net url t (r + 1) (d + 1000)),
                  evs @ Sleep d # snd (doDownload P net url t (r + 1) (d + 1000)))"
    and "m \<notin> set terminalMessages \<Longrightarrow> \<not> str_includes m ''getaddrinfo ENOTFOUND''
           \<Longrightarrow> \<not> r < MaxRetries
           \<Longrightarrow> doDownload P net url t r d = (m, evs)"
  by (subst doDownload.simps, auto simp: assms Let_def)+

lemma invalid_not_terminal: "''Invalid content-type '' @ ct \<notin> set terminalMessages"
  by (simp add: terminalMessages_def)

lemma invalid_html: "invalidContentType (Some ''text/html; charset=utf-8'')"
  by (simp add: invalidContentType_def mediaTypes_def toLowerCase_def toLowerChar_def Let_def)


text \<open>
  C4, as the claim states it, fails for a non-strict fetch: a response with content type
  \<^verbatim>\<open>text/html; charset=utf-8\<close> is requested six times, with the five delays between.
\<close>

theorem invalid_content_type_retried_counterexample:
  "doDownload sample_platform (always (Resolved html_response)) cdn_url False 0 1000
     = (''Invalid content-type text/html; charset=utf-8'',
        [Got cdn_url False, Sleep 1000, Got cdn_url False, Sleep 2000, Got cdn_url False,
         Sleep 3000, Got cdn_url False, Sleep 4000, Got cdn_url False, Sleep 5000,
         Got cdn_url False])"
proof -
  have tb: "tryBlock sample_platform (always (Resolved html_response) i) cdn_url False
              = (Throw ''Invalid content-type text/html; charset=utf-8'',
                 [Got cdn_url False])" for i
    using invalid_html by (simp add: tryBlock_def always_def html_response_def templateText_def)
  show ?thesis
    by (simp add: doDownload.simps tb terminalMessages_def MaxRetries_def)
qed

text \<open>
  C4, amended. Let the response of an attempt carry a content type \<open>ct\<close> that names none
  of \<^verbatim>\<open>audio\<close>, \<^verbatim>\<open>image\<close>, \<^verbatim>\<open>video\<close> (in any case of letters) or contains \<^verbatim>\<open>charset\<close>.
  A strict fetch returns \<^verbatim>\<open>Invalid content-type ct\<close> at once, whatever the body: one
  request, no sleep. A non-strict fetch throws an error with that message inside its
  \<^verbatim>\<open>try\<close> block, and the \<^verbatim>\<open>catch\<close> block treats it like any other failure: it returns the
  message at once only when the message contains \<^verbatim>\<open>getaddrinfo ENOTFOUND\<close>; otherwise it
  sleeps and retries while fewer than five retries have been made, and returns the
  message when they are used up.
\<close>

theorem doDownload_invalid_content_type:
  "got_res (net r) = Resolved resp \<and> content_type resp = Some ct
     \<and> invalidContentType (Some ct) \<longrightarrow>
   doDownload P net url True r d = (''Invalid content-type '' @ ct, [Got url True])
   \<and> tryBlock P (net r) url False = (Throw (''Invalid content-type '' @ ct), [Got url False])
   \<and> (str_includes (''Invalid content-type '' @ ct) ''getaddrinfo ENOTFOUND'' \<longrightarrow>
        doDownload P net url False r d = (''Invalid content-type '' @ ct, [Got url False]))
   \<and> (\<not> str_includes (''Invalid content-type '' @ ct) ''getaddrinfo ENOTFOUND''
        \<and> r < MaxRetries \<longrightarrow>
        doDownload P net url False r d
          = (fst (doDownload P net url False (r + 1) (d + 1000)),
             Got url False # Sleep d # snd (doDownload P net url False (r + 1) (d + 1000))))
   \<and> (\<not> str_includes (''Invalid content-type '' @ ct) ''getaddrinfo ENOTFOUND''
        \<and> \<not> r < MaxRetries \<longrightarrow>
        doDownload P net url False r d = (''Invalid content-type '' @ ct, [Got url False]))"
proof (intro impI)
  assume h: "got_res (net r) = Resolved resp \<and> content_type resp = Some ct
     \<and> invalidContentType (Some ct)"
  have strict: "tryBlock P (net r) url True
                  = (Return (''Invalid content-type '' @ ct), [Got url True])"
    using h by (simp add: tryBlock_def templateText_def)
  have loose: "tryBlock P (net r) url False
                 = (Throw (''Invalid content-type '' @ ct), [Got url False])"
    using h by (simp add: tryBlock_def templateText_def)
  have 1: "doDownload P net url True r d = (''Invalid content-type '' @ ct, [Got url True])"
    using doDownload_return[where net=net and r=r, OF strict] .
  have 2: "doDownload P net url False r d = (''Invalid content-type '' @ ct, [Got url False])"
    if "str_includes (''Invalid content-type '' @ ct) ''getaddrinfo ENOTFOUND''"
    using doDownload_throw(1)[where net=net and r=r, OF loose] that by blast
  have 3: "doDownload P net url False r d
          = (fst (doDownload P net url False (r + 1) (d + 1000)),
             Got url False # Sleep d # snd (doDownload P net url False (r + 1) (d + 1000)))"
    if "\<not> str_includes (''Invalid content-type '' @ ct) ''getaddrinfo ENOTFOUND''"
      "r < MaxRetries"
    using doDownload_throw(2)[where net=net and r=r, OF loose invalid_not_terminal that] by simp
  have 4: "doDownload P net url False r d = (''Invalid content-type '' @ ct, [Got url False])"
    if "\<not> str_includes (''Invalid content-type '' @ ct) ''getaddrinfo ENOTFOUND''"
      "\<not> r < MaxRetries"
    using doDownload_throw(3)[where net=net and r=r, OF loose invalid_not_terminal that] .
  show "doDownload P net url True r d = (''Invalid content-type '' @ ct, [Got url True])
   \<and> tryBlock P (net r) url False = (Throw (''Invalid content-type '' @ ct), [Got url False])
   \<and> (str_includes (''Invalid content-type '' @ ct) ''getaddrinfo ENOTFOUND'' \<longrightarrow>
        doDownload P net url False r d = (''Invalid content-type '' @ ct, [Got url False]))
   \<and> (\<not> str_includes (''Invalid content-type '' @ ct) ''getaddrinfo ENOTFOUND''
        \<and> r < MaxRetries \<longrightarrow>
        doDownload P net url False r d
          = (fst (doDownload P net url False (r + 1) (d + 1000)),
             Got url False # Sleep d # snd (doDownload P net url False (r + 1) (d + 1000))))
   \<and> (\<not> str_includes (''Invalid content-type '' @ ct) ''getaddrinfo ENOTFOUND''
        \<and> \<not> r < MaxRetries \<longrightarrow>
        doDownload P net url False r d = (''Invalid content-type '' @ ct, [Got url False]))"
    using 1 2 3 4 loose by blast
qed

theorem doDownload_invalid_content_type_witness:
  "got_res (always (Resolved html_response) 0) = Resolved html_response
   \<and> content_type html_response = Some ''text/html; charset=utf-8''
   \<and> invalidContentType (Some ''text/html; charset=utf-8'')
   \<and> doDownload sample_platform (always (Resolved html_response)) cdn_url True 0 1000
       = (''Invalid content-type text/html; charset=utf-8'', [Got cdn_url True])
   \<and> \<not> str_includes ''Invalid content-type text/html; charset=utf-8'' ''getaddrinfo ENOTFOUND''
   \<and> doDownload sample_platform (always (Resolved html_response)) cdn_url False 5 6000
       = (''Invalid content-type text/html; charset=utf-8'', [Got cdn_url False])"
proof -
  have a: "got_res (always (Resolved html_response) n) = Resolved html_response" for n
    by (simp add: always_def)
  have b: "content_type html_response = Some ''text/html; charset=utf-8''"
    by (simp add: html_response_def)
  have c: "\<not> str_includes ''Invalid content-type text/html; charset=utf-8''
             ''getaddrinfo ENOTFOUND''"
    by simp
  have m: "\<not> (5::nat) < MaxRetries" by (simp add: MaxRetries_def)
  show ?thesis
    using doDownload_invalid_content_type [of "always (Resolved html_response)" 0
        html_response "''text/html; charset=utf-8''" sample_platform cdn_url 1000]
      doDownload_invalid_content_type [of "always (Resolved html_response)" 5
        html_response "''text/html; charset=utf-8''" sample_platform cdn_url 6000]
      a b c m invalid_html
    by simp
qed





section \<open>Properties of the orchestrator and the limiter\<close>

subsection \<open>One job\<close>

lemma download_at_rest:
  "download P net w (new_Downloader 128) url retryErrors =
     Some (fst (doDownload P net url (case retryErrors of None \<Rightarrow> True | Some b \<Rightarrow> b) 0 1000),
           new_Downloader 128,
           snd (doDownload P net url (case retryErrors of None \<Rightarrow> True | Some b \<Rightarrow> b) 0 1000))"
  by (simp add: download_def getDownloadSempahore_def releaseDownloadSemaphore_def
        new_Downloader_def Let_def)

lemma rested_lookup:
  "rested st \<Longrightarrow> (case downloaders st h of Some D \<Rightarrow> D | None \<Rightarrow> new_Downloader 128)
     = new_Downloader 128"
  by (auto simp: rested_def split: option.splits)

lemma job_skip:
  "urlPathMap st k = Some v \<Longrightarrow>
   job P world st (k, url) = (Fulfilled, st\<lparr>doneCount := doneCount st + 1\<rparr>)"
  by (simp add: job_def)

lemma job_same:
  assumes "rested st" "urlPathMap st k = None" "newURL P k = Some kUrl"
    "hostname kUrl \<notin> set objectPrototypeKeys"
  shows "job P world st (k, k) =
     (Fulfilled,
      st\<lparr>urlPathMap := (urlPathMap st)(k \<mapsto> fst (doDownload P (world k False) kUrl False 0 1000)),
         downloaders := (downloaders st)(hostname kUrl \<mapsto> new_Downloader 128),
         doneCount := doneCount st + 1,
         fetches := fetches st @
           [\<lparr>item = k, destination = hostname kUrl, target = kUrl, strict = False,
             trace = snd (doDownload P (world k False) kUrl False 0 1000)\<rparr>]\<rparr>)"
  using assms
  by (simp add: job_def downUrlOf_def Let_def rested_lookup download_at_rest)

lemma job_first_ok:
  assumes "rested st" "urlPathMap st k = None" "newURL P k = Some kUrl" "k \<noteq> url"
    "hostname (downUrlOf P kUrl url) \<notin> set objectPrototypeKeys"
    "str_includes (fst (doDownload P (world k True) (downUrlOf P kUrl url) True 0 1000)) outDir"
  shows "job P world st (k, url) =
     (Fulfilled,
      st\<lparr>urlPathMap := (urlPathMap st)(k \<mapsto> fst (doDownload P (world k True) (downUrlOf P kUrl url) True 0 1000)),
         downloaders := (downloaders st)(hostname (downUrlOf P kUrl url) \<mapsto> new_Downloader 128),
         doneCount := doneCount st + 1,
         fetches := fetches st @
           [\<lparr>item = k, destination = hostname (downUrlOf P kUrl url),
             target = downUrlOf P kUrl url, strict = True,
             trace = snd (doDownload P (world k True) (downUrlOf P kUrl url) True 0 1000)\<rparr>]\<rparr>)"
  using assms
  by (simp add: job_def Let_def rested_lookup download_at_rest)

lemma job_fallback:
  assumes "rested st" "urlPathMap st k = None" "newURL P k = Some kUrl" "k \<noteq> url"
    "hostname (downUrlOf P kUrl url) \<notin> set objectPrototypeKeys"
    "\<not> str_includes (fst (doDownload P (world k True) (downUrlOf P kUrl url) True 0 1000)) outDir"
  shows "job P world st (k, url) =
     (Fulfilled,
      st\<lparr>urlPathMap := (urlPathMap st)(k \<mapsto> fst (doDownload P (world k False) kUrl False 0 1000)),
         downloaders := (downloaders st)(hostname (downUrlOf P kUrl url) \<mapsto> new_Downloader 128,
                                           ''retry'' \<mapsto> new_Downloader 128),
         doneCount := doneCount st + 1,
         fetches := fetches st @
           [\<lparr>item = k, destination = hostname (downUrlOf P kUrl url),
             target = downUrlOf P kUrl url, strict = True,
             trace = snd (doDownload P (world k True) (downUrlOf P kUrl url) True 0 1000)\<rparr>,
            \<lparr>item = k, destination = ''retry'', target = kUrl, strict = False,
             trace = snd (doDownload P (world k False) kUrl False 0 1000)\<rparr>]\<rparr>)"
proof -
  have r: "downloaders st ''retry'' = Some (new_Downloader 128)"
    using assms(1) by (simp add: rested_def)
  show ?thesis
    using assms r
    by (simp add: job_def Let_def rested_lookup download_at_rest)
qed


lemma rested_update:
  assumes "rested st"
    and "downloaders st' = (downloaders st)(h \<mapsto> new_Downloader 128)
         \<or> downloaders st' = (downloaders st)(h \<mapsto> new_Downloader 128,
                                                ''retry'' \<mapsto> new_Downloader 128)
         \<or> downloaders st' = downloaders st"
  shows "rested st'"
proof -
  have old: "downloaders st b = Some E \<Longrightarrow> E = new_Downloader 128" for b E
    using assms(1) unfolding rested_def by blast
  have oldr: "downloaders st ''retry'' = Some (new_Downloader 128)"
    using assms(1) unfolding rested_def by blast
  have r: "downloaders st' ''retry'' = Some (new_Downloader 128)"
    using assms(2) oldr by (elim disjE) simp_all
  have "D = new_Downloader 128" if d: "downloaders st' a = Some D" for D a
    using assms(2)
  proof (elim disjE)
    assume e: "downloaders st' = (downloaders st)(h \<mapsto> new_Downloader 128)"
    show ?thesis
    proof (cases "a = h")
      case True then show ?thesis using d e by simp
    next
      case False then show ?thesis using d e old[of a D] by simp
    qed
  next
    assume e: "downloaders st' = (downloaders st)(h \<mapsto> new_Downloader 128,
                                                ''retry'' \<mapsto> new_Downloader 128)"
    show ?thesis
    proof (cases "a = h \<or> a = ''retry''")
      case True then show ?thesis using d e by (auto split: if_splits)
    next
      case False then show ?thesis using d e old[of a D] by simp
    qed
  next
    assume e: "downloaders st' = downloaders st"
    show ?thesis using d e old[of a D] by simp
  qed
  then show ?thesis using r unfolding rested_def by blast
qed

lemma rested_start: "rested (start m)"
  by (auto simp: rested_def start_def split: if_splits)

text \<open>What a job leaves alone, whatever the state it starts from.\<close>

lemma job_frame:
  assumes "job P world st (k, url) = (s, st')"
  shows "(\<forall>k'. k' \<noteq> k \<longrightarrow> urlPathMap st' k' = urlPathMap st k')
       \<and> (\<exists>new. fetches st' = fetches st @ new \<and> (\<forall>f \<in> set new. item f = k))"
  using assms
  by (auto simp: job_def Let_def split: if_splits option.splits prod.splits)

lemma job_progress:
  assumes "rested st" "newURL P k = Some kUrl"
    "hostname (downUrlOf P kUrl url) \<notin> set objectPrototypeKeys"
  shows "fst (job P world st (k, url)) = Fulfilled
       \<and> rested (snd (job P world st (k, url)))
       \<and> urlPathMap (snd (job P world st (k, url))) k \<noteq> None
       \<and> doneCount (snd (job P world st (k, url))) = doneCount st + 1"
proof (cases "urlPathMap st k")
  case (Some v)
  have "rested (st\<lparr>doneCount := doneCount st + 1\<rparr>)"
    by (rule rested_update[OF assms(1)]) simp
  then show ?thesis using Some by (simp add: job_skip)
next
  case None
  show ?thesis
  proof (cases "k = url")
    case True
    have d: "downUrlOf P kUrl k = kUrl" using assms(2) by (simp add: downUrlOf_def)
    have h: "hostname kUrl \<notin> set objectPrototypeKeys" using assms(3) True d by simp
    note j = job_same[where world=world and k=k, OF assms(1) None assms(2) h]
    have "rested (snd (job P world st (k, k)))"
      by (rule rested_update[OF assms(1), of _ "hostname kUrl"]) (simp add: j)
    then have "fst (job P world st (k, k)) = Fulfilled
       \<and> rested (snd (job P world st (k, k)))
       \<and> urlPathMap (snd (job P world st (k, k))) k \<noteq> None
       \<and> doneCount (snd (job P world st (k, k))) = doneCount st + 1"
      by (simp add: j)
    then show ?thesis using True by simp
  next
    case False
    show ?thesis
    proof (cases "str_includes (fst (doDownload P (world k True) (downUrlOf P kUrl url) True 0 1000)) outDir")
      case True
      note j = job_first_ok[where world=world and k=k, OF assms(1) None assms(2) False assms(3) True]
      have "rested (snd (job P world st (k, url)))"
        by (rule rested_update[OF assms(1), of _ "hostname (downUrlOf P kUrl url)"]) (simp add: j)
      then show ?thesis by (simp add: j)
    next
      case no: False
      note j = job_fallback[where world=world and k=k, OF assms(1) None assms(2) False assms(3) no]
      have "rested (snd (job P world st (k, url)))"
        by (rule rested_update[OF assms(1), of _ "hostname (downUrlOf P kUrl url)"]) (simp add: j)
      then show ?thesis by (simp add: j)
    qed
  qed
qed


subsection \<open>The run\<close>

lemma runJobs_Cons:
  "runJobs P world st (j # js) =
     (if fst (job P world st j) = Fulfilled then runJobs P world (snd (job P world st j)) js
      else job P world st j)"
  by (cases "job P world st j") (auto split: settled.splits)

lemma runJobs_frame:
  "urlPathMap st k = Some v \<Longrightarrow>
   urlPathMap (snd (runJobs P world st todo)) k = Some v
   \<and> filter (\<lambda>f. item f = k) (fetches (snd (runJobs P world st todo)))
       = filter (\<lambda>f. item f = k) (fetches st)"
proof (induction todo arbitrary: st)
  case Nil
  then show ?case by simp
next
  case (Cons j js)
  obtain k' url where j: "j = (k', url)" by (cases j)
  obtain s st' where r: "job P world st (k', url) = (s, st')" by (cases "job P world st (k', url)")
  have keep: "urlPathMap st' k = Some v
     \<and> filter (\<lambda>f. item f = k) (fetches st') = filter (\<lambda>f. item f = k) (fetches st)"
  proof (cases "k' = k")
    case True
    then show ?thesis using r Cons.prems by (auto simp: job_skip)
  next
    case False
    obtain new where n: "fetches st' = fetches st @ new" "\<forall>f \<in> set new. item f = k'"
      using job_frame[OF r] by blast
    have "filter (\<lambda>f. item f = k) new = []"
      using n(2) False by (auto simp: filter_empty_conv)
    then show ?thesis
      using job_frame[OF r] False Cons.prems n(1) by simp
  qed
  show ?case
  proof (cases "s = Fulfilled")
    case True
    then show ?thesis
      using Cons.IH[of st'] keep r j by (simp add: runJobs_Cons del: runJobs.simps(2))
  next
    case False
    then show ?thesis using keep r j by (simp add: runJobs_Cons del: runJobs.simps(2))
  qed
qed


lemma buildImgMap_ok:
  "buildImgMap P urls = Inr m \<Longrightarrow>
   map fst m = urls \<and> (\<forall>j \<in> set m. resolveUrl P (fst j) = Inr (snd j))"
  by (induction urls arbitrary: m) (auto split: sum.splits)

lemma resolveUrl_None: "newURL P url = None \<Longrightarrow> resolveUrl P url = Inl ''Invalid URL''"
  by (simp add: resolveUrl_def)

lemma resolveUrl_Some: "newURL P url = Some u \<Longrightarrow> \<exists>c. resolveUrl P url = Inr c"
  by (simp add: resolveUrl_def Let_def)

lemma resolveUrl_Inl: "resolveUrl P url = Inl e \<Longrightarrow> e = ''Invalid URL'' \<and> newURL P url = None"
  by (auto simp: resolveUrl_def Let_def split: option.splits)

lemma buildImgMap_total:
  "(\<forall>url \<in> set urls. newURL P url \<noteq> None) \<Longrightarrow> \<exists>m. buildImgMap P urls = Inr m"
proof (induction urls)
  case Nil
  then show ?case by simp
next
  case (Cons url urls)
  obtain u where "newURL P url = Some u" using Cons.prems by auto
  then obtain c where c: "resolveUrl P url = Inr c" using resolveUrl_Some by blast
  obtain m where "buildImgMap P urls = Inr m" using Cons by auto
  then show ?case using c by simp
qed

lemma buildImgMap_fails:
  "\<exists>url \<in> set urls. newURL P url = None \<Longrightarrow> buildImgMap P urls = Inl ''Invalid URL''"
proof (induction urls)
  case Nil
  then show ?case by simp
next
  case (Cons url urls)
  show ?case
  proof (cases "newURL P url")
    case None
    then show ?thesis by (simp add: resolveUrl_None)
  next
    case (Some u)
    then obtain c where c: "resolveUrl P url = Inr c" using resolveUrl_Some by blast
    have "\<exists>url \<in> set urls. newURL P url = None" using Cons.prems Some by auto
    then have "buildImgMap P urls = Inl ''Invalid URL''" by (rule Cons.IH)
    then show ?thesis using c by simp
  qed
qed

subsection \<open>The limiter\<close>

lemma length_remove1_int:
  "w \<in> set xs \<Longrightarrow> int (length (remove1 w xs)) = int (length xs) - 1"
  by (induction xs) auto

lemma limiter_inv_boot: "0 \<le> n \<Longrightarrow> limiter_inv n (boot n)"
  by (simp add: limiter_inv_def boot_def new_Downloader_def)

lemma limiter_inv_step:
  assumes "limiter_inv n s" "limiter_step s c = Some s'"
  shows "limiter_inv n s'"
proof (cases c)
  case (Enter w)
  then show ?thesis
    using assms
    by (auto simp: limiter_inv_def getDownloadSempahore_def Let_def split: if_splits)
next
  case (Leave w)
  then have w: "w \<in> set (inFlight s)" using assms(2) by (auto split: if_splits)
  then have len: "int (length (remove1 w (inFlight s))) = int (length (inFlight s)) - 1"
    by (rule length_remove1_int)
  have pos: "0 < length (inFlight s)" using w by (cases "inFlight s") auto
  show ?thesis
    using assms Leave w len pos
    by (auto simp: limiter_inv_def releaseDownloadSemaphore_def Let_def
             split: if_splits list.splits)
qed

lemma limiter_inv_run:
  "limiter_inv n s \<Longrightarrow> limiter_run s cs = Some s' \<Longrightarrow> limiter_inv n s'"
proof (induction cs arbitrary: s)
  case Nil
  then show ?case by simp
next
  case (Cons c cs)
  then show ?case
    by (auto split: option.splits dest: limiter_inv_step)
qed

lemma limiter_saturated:
  "limiter_run (boot 128 :: nat limiter) (map Enter [0..<130] @ [Leave 0]) = Some
     \<lparr>sem = \<lparr>avalibleDeliverySlots = 0, downloadQueue = [129]\<rparr>, inFlight = [1..<129]\<rparr>"
  by code_simp

lemma job_rested: "rested st \<Longrightarrow> rested (snd (job P world st (k, url)))"
proof -
  assume r: "rested st"
  show ?thesis
  proof (cases "urlPathMap st k")
    case (Some v)
    have "rested (st\<lparr>doneCount := doneCount st + 1\<rparr>)"
      by (rule rested_update[OF r]) simp
    then show ?thesis using Some by (simp add: job_skip)
  next
    case None
    show ?thesis
    proof (cases "newURL P k")
      case n: None
      then show ?thesis using None r by (simp add: job_def)
    next
      case (Some kUrl)
      show ?thesis
      proof (cases "hostname (downUrlOf P kUrl url) \<in> set objectPrototypeKeys")
        case True
        then show ?thesis using None Some r by (simp add: job_def Let_def)
      next
        case False
        then show ?thesis using job_progress[OF r Some False] by simp
      qed
    qed
  qed
qed

lemma runJobs_rested: "rested st \<Longrightarrow> rested (snd (runJobs P world st todo))"
proof (induction todo arbitrary: st)
  case Nil
  then show ?case by simp
next
  case (Cons j js)
  obtain k url where j: "j = (k, url)" by (cases j)
  have "rested (snd (job P world st j))" using job_rested[OF Cons.prems] j by simp
  then show ?case using Cons.IH by (simp add: runJobs_Cons del: runJobs.simps(2))
qed

lemma main_rested: "rested (snd (main P world imgs m0))"
  by (auto simp: main_def rested_start runJobs_rested split: sum.splits)

text \<open>
  C9. Both places that create a \<^verbatim>\<open>Downloader\<close> pass 128. In every state that calls of
  \<^verbatim>\<open>download\<close> can bring a \<^verbatim>\<open>Downloader\<close> of 128 slots into, at most 128 callers are in
  flight, the free slots and the callers in flight add up to 128, and somebody waits only
  when all 128 are in flight. A caller that enters when 128 are in flight is not admitted
  and goes to the back of the queue; one that enters when fewer are in flight is admitted.
  When a caller leaves and the queue is not empty, the caller at the head of the queue,
  the one that has waited longest, is admitted and the rest of the queue keeps its order.
  After a run in which the jobs are taken one after the other, every \<^verbatim>\<open>Downloader\<close> of
  \<^verbatim>\<open>downloaders\<close> has its 128 slots free and nobody queued.
\<close>

theorem limiter_capacity_fifo:
  "(limiter_run (boot 128) cs = Some s \<longrightarrow>
       length (inFlight s) \<le> 128
     \<and> avalibleDeliverySlots (sem s) = 128 - int (length (inFlight s))
     \<and> (downloadQueue (sem s) \<noteq> [] \<longrightarrow> length (inFlight s) = 128)
     \<and> (\<forall>w s'. limiter_step s (Enter w) = Some s' \<and> length (inFlight s) = 128 \<longrightarrow>
            inFlight s' = inFlight s \<and> downloadQueue (sem s') = downloadQueue (sem s) @ [w])
     \<and> (\<forall>w s'. limiter_step s (Enter w) = Some s' \<and> length (inFlight s) < 128 \<longrightarrow>
            inFlight s' = inFlight s @ [w] \<and> downloadQueue (sem s') = [])
     \<and> (\<forall>v w q s'. limiter_step s (Leave v) = Some s' \<and> downloadQueue (sem s) = w # q \<longrightarrow>
            inFlight s' = remove1 v (inFlight s) @ [w] \<and> downloadQueue (sem s') = q)
     \<and> (\<forall>v s'. limiter_step s (Leave v) = Some s' \<and> downloadQueue (sem s) = [] \<longrightarrow>
            inFlight s' = remove1 v (inFlight s) \<and> downloadQueue (sem s') = []))
   \<and> (\<forall>h D. downloaders (snd (main P world imgs m0)) h = Some D \<longrightarrow> D = new_Downloader 128)"
proof (intro conjI impI)
  assume run: "limiter_run (boot 128) cs = Some s"
  have inv: "limiter_inv 128 s"
    using limiter_inv_run[OF limiter_inv_boot run] by simp
  show "length (inFlight s) \<le> 128" using inv by (simp add: limiter_inv_def)
  show "avalibleDeliverySlots (sem s) = 128 - int (length (inFlight s))"
    using inv by (simp add: limiter_inv_def)
  show "length (inFlight s) = 128" if "downloadQueue (sem s) \<noteq> []"
    using inv that by (simp add: limiter_inv_def)
  show "\<forall>w s'. limiter_step s (Enter w) = Some s' \<and> length (inFlight s) = 128 \<longrightarrow>
            inFlight s' = inFlight s \<and> downloadQueue (sem s') = downloadQueue (sem s) @ [w]"
    using inv
    by (auto simp: limiter_inv_def getDownloadSempahore_def Let_def split: if_splits)
  show "\<forall>w s'. limiter_step s (Enter w) = Some s' \<and> length (inFlight s) < 128 \<longrightarrow>
            inFlight s' = inFlight s @ [w] \<and> downloadQueue (sem s') = []"
    using inv
    by (auto simp: limiter_inv_def getDownloadSempahore_def Let_def split: if_splits)
  show "\<forall>v w q s'. limiter_step s (Leave v) = Some s' \<and> downloadQueue (sem s) = w # q \<longrightarrow>
            inFlight s' = remove1 v (inFlight s) @ [w] \<and> downloadQueue (sem s') = q"
    by (auto simp: releaseDownloadSemaphore_def Let_def split: if_splits)
  show "\<forall>v s'. limiter_step s (Leave v) = Some s' \<and> downloadQueue (sem s) = [] \<longrightarrow>
            inFlight s' = remove1 v (inFlight s) \<and> downloadQueue (sem s') = []"
    by (auto simp: releaseDownloadSemaphore_def Let_def split: if_splits)
next
  show "\<forall>h D. downloaders (snd (main P world imgs m0)) h = Some D \<longrightarrow> D = new_Downloader 128"
    using main_rested[of P world imgs m0] unfolding rested_def by blast
qed

theorem limiter_capacity_fifo_witness:
  "limiter_run (boot 128 :: nat limiter) (map Enter [0..<130] @ [Leave 0]) = Some
     \<lparr>sem = \<lparr>avalibleDeliverySlots = 0, downloadQueue = [129]\<rparr>, inFlight = [1..<129]\<rparr>
   \<and> length (inFlight \<lparr>sem = \<lparr>avalibleDeliverySlots = 0, downloadQueue = [129::nat]\<rparr>,
                         inFlight = [1..<129]\<rparr>) = 128
   \<and> downloaders (snd (main sample_platform strict404 catalog Map.empty)) ''retry''
       = Some (new_Downloader 128)"
proof -
  note t = limiter_capacity_fifo [of "map Enter [0..<130] @ [Leave 0]"
      "\<lparr>sem = \<lparr>avalibleDeliverySlots = 0, downloadQueue = [129::nat]\<rparr>, inFlight = [1..<129]\<rparr>"
      sample_platform strict404 catalog Map.empty]
  have q: "downloadQueue (sem \<lparr>sem = \<lparr>avalibleDeliverySlots = 0, downloadQueue = [129::nat]\<rparr>,
                               inFlight = [1..<129]\<rparr>) \<noteq> []"
    by simp
  have full: "length (inFlight \<lparr>sem = \<lparr>avalibleDeliverySlots = 0, downloadQueue = [129::nat]\<rparr>,
                         inFlight = [1..<129]\<rparr>) = 128"
    using t limiter_saturated q by blast
  have r: "downloaders (snd (main sample_platform strict404 catalog Map.empty)) ''retry''
       = Some (new_Downloader 128)"
    using main_rested[of sample_platform strict404 catalog Map.empty]
    unfolding rested_def by blast
  show ?thesis
    using limiter_saturated full r by blast
qed

subsection \<open>URL resolution\<close>

text \<open>
  C6, as the claim states it, fails: resolution is not total. For an original URL that
  does not parse, \<^verbatim>\<open>new URL(url)\<close> throws in the loop that fills \<^verbatim>\<open>imgMap\<close>; there is no
  candidate and no fallback.
\<close>

theorem resolveUrl_throws_counterexample:
  "resolveUrl sample_platform ''not a url'' = Inl ''Invalid URL''
   \<and> buildImgMap sample_platform (urlArray broken_catalog) = Inl ''Invalid URL''"
proof -
  have p: "newURL sample_platform ''not a url'' = None"
    by (simp add: sample_platform_def sample_newURL_def)
  have a: "urlArray broken_catalog = [plain, ''not a url'']"
    by (simp add: urlArray_def broken_catalog_def set_add_def plain_def)
  have "buildImgMap sample_platform [plain, ''not a url''] = Inl ''Invalid URL''"
    by (rule buildImgMap_fails) (simp add: p)
  then show ?thesis using a p by (simp add: resolveUrl_None)
qed

text \<open>
  C6, amended. Resolution is a function of the original URL and of nothing else. It
  throws when the original URL does not parse. When it parses, the candidate is the
  value of the query parameter \<^verbatim>\<open>url\<close> if there is one and the original URL otherwise,
  and a leading \<^verbatim>\<open>//\<close> is cut off the candidate. A candidate that does not parse makes the
  job fetch the original URL; one that parses is what the job fetches. The loop that
  fills \<^verbatim>\<open>imgMap\<close> pairs every original URL with its candidate when all of them parse, and
  throws when one of them does not.
\<close>

theorem resolveUrl_defined:
  "(newURL P url = None \<longrightarrow> resolveUrl P url = Inl ''Invalid URL'')
   \<and> (newURL P url = Some u \<longrightarrow>
        resolveUrl P url
          = Inr (let candidate = (case searchParams_url u of Some q \<Rightarrow> q | None \<Rightarrow> url)
                 in if prefix ''//'' candidate then drop 2 candidate else candidate)
        \<and> (\<forall>c. newURL P c = None \<longrightarrow> downUrlOf P u c = u)
        \<and> (\<forall>c d. newURL P c = Some d \<longrightarrow> downUrlOf P u c = d))
   \<and> ((\<forall>k \<in> set urls. newURL P k \<noteq> None) \<longrightarrow>
        (\<exists>m. buildImgMap P urls = Inr m \<and> map fst m = urls
             \<and> (\<forall>j \<in> set m. resolveUrl P (fst j) = Inr (snd j))))
   \<and> ((\<exists>k \<in> set urls. newURL P k = None) \<longrightarrow>
        buildImgMap P urls = Inl ''Invalid URL'')"
proof (intro conjI impI)
  show "resolveUrl P url = Inl ''Invalid URL''" if "newURL P url = None"
    using that by (rule resolveUrl_None)
  show "resolveUrl P url
          = Inr (let candidate = (case searchParams_url u of Some q \<Rightarrow> q | None \<Rightarrow> url)
                 in if prefix ''//'' candidate then drop 2 candidate else candidate)"
    if "newURL P url = Some u"
    using that by (simp add: resolveUrl_def Let_def)
  show "\<forall>c. newURL P c = None \<longrightarrow> downUrlOf P u c = u"
    by (simp add: downUrlOf_def)
  show "\<forall>c d. newURL P c = Some d \<longrightarrow> downUrlOf P u c = d"
    by (simp add: downUrlOf_def)
  show "\<exists>m. buildImgMap P urls = Inr m \<and> map fst m = urls
             \<and> (\<forall>j \<in> set m. resolveUrl P (fst j) = Inr (snd j))"
    if "\<forall>k \<in> set urls. newURL P k \<noteq> None"
    using buildImgMap_total[OF that] buildImgMap_ok by blast
  show "buildImgMap P urls = Inl ''Invalid URL''" if "\<exists>k \<in> set urls. newURL P k = None"
    using that by (rule buildImgMap_fails)
qed

lemma parse_relative:
  "newURL sample_platform relative
     = Some \<lparr>href = relative, hostname = ''proxy.example.com'',
             searchParams_url = Some ''//cdn.example.com/a.jpg''\<rparr>"
  by (simp add: sample_platform_def sample_newURL_def relative_def Let_def)


lemma parse_plain:
  "newURL sample_platform plain
     = Some \<lparr>href = plain, hostname = ''cdn.example.com'', searchParams_url = None\<rparr>"
  by (simp add: sample_platform_def sample_newURL_def plain_def Let_def)

lemma parse_bare: "newURL sample_platform ''cdn.example.com/a.jpg'' = None"
  by (simp add: sample_platform_def sample_newURL_def Let_def)

theorem resolveUrl_defined_witness:
  "newURL sample_platform relative
     = Some \<lparr>href = relative, hostname = ''proxy.example.com'',
             searchParams_url = Some ''//cdn.example.com/a.jpg''\<rparr>
   \<and> resolveUrl sample_platform relative = Inr ''cdn.example.com/a.jpg''
   \<and> newURL sample_platform ''cdn.example.com/a.jpg'' = None
   \<and> downUrlOf sample_platform
         \<lparr>href = relative, hostname = ''proxy.example.com'',
          searchParams_url = Some ''//cdn.example.com/a.jpg''\<rparr> ''cdn.example.com/a.jpg''
       = \<lparr>href = relative, hostname = ''proxy.example.com'',
          searchParams_url = Some ''//cdn.example.com/a.jpg''\<rparr>
   \<and> resolveUrl sample_platform plain = Inr plain"
  using resolveUrl_defined [of sample_platform relative
      "\<lparr>href = relative, hostname = ''proxy.example.com'',
        searchParams_url = Some ''//cdn.example.com/a.jpg''\<rparr>" "[]"]
    resolveUrl_defined [of sample_platform plain
      "\<lparr>href = plain, hostname = ''cdn.example.com'', searchParams_url = None\<rparr>" "[]"]
    parse_relative parse_plain parse_bare
  by (simp add: plain_def)


lemma buildImgMap_Inl: "buildImgMap P urls = Inl e \<Longrightarrow> e = ''Invalid URL''"
  by (induction urls) (auto split: sum.splits dest: resolveUrl_Inl)

subsection \<open>Items already in the checkpoint\<close>

text \<open>
  C7. When the checkpoint read at startup has an outcome \<open>v\<close> for the original URL \<open>k\<close>,
  then after the run \<^verbatim>\<open>urlPathMap[k]\<close> is still \<open>v\<close> and the log of \<^verbatim>\<open>download\<close> calls has
  none for the item \<open>k\<close>; the job of \<open>k\<close> itself changes nothing but the counter
  \<^verbatim>\<open>done\<close>, which it increments.
\<close>

theorem checkpoint_skip:
  "urlPathMap0 k = Some v \<longrightarrow>
     urlPathMap (snd (main P world imgs urlPathMap0)) k = Some v
   \<and> (\<forall>f \<in> set (fetches (snd (main P world imgs urlPathMap0))). item f \<noteq> k)
   \<and> (\<forall>st url. urlPathMap st k = Some v \<longrightarrow>
         job P world st (k, url) = (Fulfilled, st\<lparr>doneCount := doneCount st + 1\<rparr>))"
proof (intro impI conjI)
  assume h: "urlPathMap0 k = Some v"
  have s: "urlPathMap (start urlPathMap0) k = Some v" "fetches (start urlPathMap0) = []"
    using h by (simp_all add: start_def)
  have run: "urlPathMap (snd (runJobs P world (start urlPathMap0) todo)) k = Some v
       \<and> filter (\<lambda>f. item f = k) (fetches (snd (runJobs P world (start urlPathMap0) todo))) = []"
    for todo
    using runJobs_frame[OF s(1), of P world todo] s(2) by simp
  have m: "main P world imgs urlPathMap0 = (RejectedWith ''Invalid URL'', start urlPathMap0)
       \<or> (\<exists>todo. main P world imgs urlPathMap0 = runJobs P world (start urlPathMap0) todo)"
  proof (cases "buildImgMap P (urlArray imgs)")
    case (Inl e)
    then show ?thesis using buildImgMap_Inl[OF Inl] by (simp add: main_def)
  next
    case (Inr m)
    then show ?thesis by (auto simp: main_def)
  qed
  show "urlPathMap (snd (main P world imgs urlPathMap0)) k = Some v"
    using m run s(1) by (elim disjE exE) simp_all
  have "filter (\<lambda>f. item f = k) (fetches (snd (main P world imgs urlPathMap0))) = []"
    using m run s(2) by (elim disjE exE) simp_all
  then show "\<forall>f \<in> set (fetches (snd (main P world imgs urlPathMap0))). item f \<noteq> k"
    by (simp add: filter_empty_conv)
  show "\<forall>st url. urlPathMap st k = Some v \<longrightarrow>
         job P world st (k, url) = (Fulfilled, st\<lparr>doneCount := doneCount st + 1\<rparr>)"
    by (simp add: job_skip)
qed


theorem checkpoint_skip_witness:
  "[wrapped \<mapsto> ''./images/old.png''] wrapped = Some ''./images/old.png''
   \<and> urlPathMap (snd (main sample_platform strict404 catalog [wrapped \<mapsto> ''./images/old.png'']))
        wrapped = Some ''./images/old.png''
   \<and> list_all (\<lambda>f. item f \<noteq> wrapped)
        (fetches (snd (main sample_platform strict404 catalog [wrapped \<mapsto> ''./images/old.png''])))"
proof -
  have h: "[wrapped \<mapsto> ''./images/old.png''] wrapped = Some ''./images/old.png''"
    by simp
  note t = checkpoint_skip [of "[wrapped \<mapsto> ''./images/old.png'']" wrapped
      "''./images/old.png''" sample_platform strict404 catalog, THEN mp, OF h]
  have a: "urlPathMap (snd (main sample_platform strict404 catalog
              [wrapped \<mapsto> ''./images/old.png''])) wrapped = Some ''./images/old.png''"
    using t by blast
  have b: "\<forall>f \<in> set (fetches (snd (main sample_platform strict404 catalog
              [wrapped \<mapsto> ''./images/old.png'']))). item f \<noteq> wrapped"
    using t by blast
  have c: "list_all (\<lambda>f. item f \<noteq> wrapped)
        (fetches (snd (main sample_platform strict404 catalog [wrapped \<mapsto> ''./images/old.png''])))"
    unfolding list_all_iff using b .
  show ?thesis using h a c by blast
qed

subsection \<open>The fetches of one job\<close>







lemma start_empty: "urlPathMap (start Map.empty) k = None" "fetches (start m) = []"
  by (simp_all add: start_def)




subsection \<open>Every job is recorded\<close>









subsection \<open>Names the downloaders object inherits\<close>

text \<open>
  The case that the statements about one job and about the run exclude by their
  hypotheses. A work item without an outcome whose first \<^verbatim>\<open>Downloader\<close> is looked up under a
  name that the \<^verbatim>\<open>downloaders\<close> object inherits from \<^verbatim>\<open>Object.prototype\<close>, such as
  \<^verbatim>\<open>constructor\<close>, finds the inherited value there: no \<^verbatim>\<open>Downloader\<close> is created, the call
  of its \<^verbatim>\<open>download\<close> throws a \<^verbatim>\<open>TypeError\<close>, the job is rejected before any fetch, and
  nothing is recorded for the item.
\<close>

lemma job_inherited_name:
  "urlPathMap st k = None \<and> newURL P k = Some kUrl
     \<and> hostname (downUrlOf P kUrl url) \<in> set objectPrototypeKeys \<longrightarrow>
   job P world st (k, url)
     = (RejectedWith ''downloaders[downUrl.hostname].download is not a function'', st)"
  by (simp add: job_def Let_def)

lemma job_inherited_name_example:
  "urlPathMap (start Map.empty) ''http://constructor/a.png'' = None
   \<and> newURL sample_platform ''http://constructor/a.png''
       = Some \<lparr>href = ''http://constructor/a.png'', hostname = ''constructor'',
               searchParams_url = None\<rparr>
   \<and> ''constructor'' \<in> set objectPrototypeKeys
   \<and> job sample_platform strict404 (start Map.empty)
         (''http://constructor/a.png'', ''http://constructor/a.png'')
       = (RejectedWith ''downloaders[downUrl.hostname].download is not a function'',
          start Map.empty)"
proof -
  have p: "newURL sample_platform ''http://constructor/a.png''
       = Some \<lparr>href = ''http://constructor/a.png'', hostname = ''constructor'',
               searchParams_url = None\<rparr>"
    by (simp add: sample_platform_def sample_newURL_def Let_def)
  have c: "''constructor'' \<in> set objectPrototypeKeys"
    by (simp add: objectPrototypeKeys_def)
  have d: "hostname (downUrlOf sample_platform
             \<lparr>href = ''http://constructor/a.png'', hostname = ''constructor'',
              searchParams_url = None\<rparr> ''http://constructor/a.png'')
           \<in> set objectPrototypeKeys"
    using c by (simp add: downUrlOf_def p)
  note t = job_inherited_name [of "start Map.empty" "''http://constructor/a.png''"
      sample_platform
      "\<lparr>href = ''http://constructor/a.png'', hostname = ''constructor'',
        searchParams_url = None\<rparr>" "''http://constructor/a.png''" strict404]
  have j: "job sample_platform strict404 (start Map.empty)
         (''http://constructor/a.png'', ''http://constructor/a.png'')
       = (RejectedWith ''downloaders[downUrl.hostname].download is not a function'',
          start Map.empty)"
    using t start_empty(1)[of "''http://constructor/a.png''"] p d by blast
  show ?thesis
    using start_empty(1)[of "''http://constructor/a.png''"] p c j by blast
qed

end
